theory Spec2Isabelle
  imports Complex_Main "HOL-Library.Sublist" "HOL-Library.AList"
begin

section \<open>Python values\<close>

text \<open>
  The script \<^verbatim>\<open>protocols/ASVspoof2019-LA.py\<close> reads three protocol files, probes the header
  of every audio file they name and writes one CSV table. The exceptions it can raise are a
  datatype; a function that may raise returns \<open>error + 'a\<close>, with \<open>Inl\<close> the exception.
\<close>

datatype error =
    KeyError
  | TypeError
  | ZeroDivisionError
  | OverflowError
  | UnboundLocalError
  | ParserError
  | RuntimeError
  | ValueError

text \<open>
  A cell of a pandas row: a \<^verbatim>\<open>str\<close>, an \<^verbatim>\<open>int\<close>, a \<^verbatim>\<open>float\<close>, a \<^verbatim>\<open>bool\<close> or the missing
  value. A finite float is the rational number it denotes (the sign of zero is not kept).
\<close>

datatype cell = CStr string | CInt int | CFloat rat | CBool bool | NaN

text \<open>
  A pandas row (a \<^verbatim>\<open>Series\<close>, or the \<^verbatim>\<open>dict\<close> that \<^verbatim>\<open>to_dict(orient="records")\<close> makes of it)
  is an association list: the order of the columns is part of it. The assignment
  \<^verbatim>\<open>row[k] = v\<close> is \<^const>\<open>AList.update\<close>: it overwrites an existing column in place and
  appends a new one.
\<close>

type_synonym row = "(string \<times> cell) list"

section \<open>String and path operations of the standard library\<close>

text \<open>\<^verbatim>\<open>sub in s\<close> on strings: \<open>sub\<close> occurs in \<open>s\<close> as a contiguous substring.\<close>

fun str_in :: "string \<Rightarrow> string \<Rightarrow> bool" where
  "str_in sub [] = (sub = [])"
| "str_in sub (c # cs) = (prefix sub (c # cs) \<or> str_in sub cs)"

text \<open>
  \<^verbatim>\<open>s.replace(old, new)\<close>: every occurrence of \<open>old\<close>, found from left to right without
  overlap, is replaced. With an empty \<open>old\<close> Python puts \<open>new\<close> before every character and at
  the end.
\<close>

fun replace_from :: "string \<Rightarrow> string \<Rightarrow> nat \<Rightarrow> string \<Rightarrow> string" where
  "replace_from old new k [] = []"
| "replace_from old new (Suc k) (c # cs) = replace_from old new k cs"
| "replace_from old new 0 (c # cs) =
     (if prefix old (c # cs) then new @ replace_from old new (length old - 1) cs
      else c # replace_from old new 0 cs)"

definition str_replace :: "string \<Rightarrow> string \<Rightarrow> string \<Rightarrow> string" where
  "str_replace s old new =
     (if old = [] then new @ concat (map (\<lambda>c. c # new) s)
      else replace_from old new 0 s)"

text \<open>
  \<^verbatim>\<open>os.path.join(a, *p)\<close> of \<^verbatim>\<open>posixpath\<close>: a component that starts with the separator
  discards everything before it; otherwise a separator is put between the parts unless the
  path so far is empty or already ends with one.
\<close>

definition join_step :: "string \<Rightarrow> string \<Rightarrow> string" where
  "join_step path b =
     (if prefix ''/'' b then b
      else if path = [] \<or> suffix ''/'' path then path @ b
      else path @ ''/'' @ b)"

definition os_path_join :: "string \<Rightarrow> string list \<Rightarrow> string" where
  "os_path_join a p = foldl join_step a p"

section \<open>Floating point: true division and \<^verbatim>\<open>round\<close>\<close>

text \<open>
  Python's \<^verbatim>\<open>int / int\<close> is the quotient correctly rounded to binary64 (ties to even), and
  \<^verbatim>\<open>round(x, 2)\<close> rounds the exact value of \<open>x\<close> to two decimals (ties to even) and converts that
  decimal back to the nearest binary64. Both are stated on the exact rational values.
\<close>

fun bitlen :: "nat \<Rightarrow> nat" where
  "bitlen n = (if n = 0 then 0 else Suc (bitlen (n div 2)))"

declare bitlen.simps [simp del]

definition pow2 :: "int \<Rightarrow> rat" where
  "pow2 e = (if 0 \<le> e then 2 ^ nat e else 1 / 2 ^ nat (- e))"

text \<open>The exponent \<open>e\<close> with \<open>2 ^ e \<le> |x| < 2 ^ (e + 1)\<close>, for \<open>x \<noteq> 0\<close>.\<close>

definition floor_log2 :: "rat \<Rightarrow> int" where
  "floor_log2 x =
     (let (p, q) = quotient_of \<bar>x\<bar>;
          e = int (bitlen (nat p)) - int (bitlen (nat q))
      in if pow2 e \<le> \<bar>x\<bar> then e else e - 1)"

text \<open>Rounding to the nearest integer, a tie to the even one.\<close>

definition round_half_even :: "rat \<Rightarrow> int" where
  "round_half_even x =
     (let f = \<lfloor>x\<rfloor>; d = x - of_int f
      in if d < 1 / 2 then f
         else if 1 / 2 < d then f + 1
         else if even f then f else f + 1)"

text \<open>
  The nearest binary64 value: 53 significant bits, the smallest exponent that of the
  subnormal numbers. A result beyond the largest finite value is an overflow.
\<close>

definition ulp_of :: "rat \<Rightarrow> rat" where
  "ulp_of x = pow2 (max (floor_log2 x) (- 1022) - 52)"

definition to_binary64 :: "rat \<Rightarrow> rat" where
  "to_binary64 x =
     (if x = 0 then 0 else of_int (round_half_even (x / ulp_of x)) * ulp_of x)"

definition py_truediv :: "int \<Rightarrow> int \<Rightarrow> error + rat" where
  "py_truediv a b =
     (if b = 0 then Inl ZeroDivisionError
      else let q = to_binary64 (of_int a / of_int b)
           in if 1024 \<le> floor_log2 q then Inl OverflowError else Inr q)"

definition py_round2 :: "rat \<Rightarrow> rat" where
  "py_round2 x = to_binary64 (of_int (round_half_even (x * 100)) / 100)"

section \<open>The file system and the header probe\<close>

text \<open>
  What \<^verbatim>\<open>torchaudio.info\<close> reports of an audio file: the fields of its \<^verbatim>\<open>AudioMetaData\<close>.
\<close>

record AudioMetaData =
  sample_rate :: int
  num_frames :: int
  num_channels :: int
  bits_per_sample :: int
  encoding :: string

text \<open>
  A file is a text file, given by its lines, or an audio file, given by what the header
  probe reports of it. The file system maps a path to the file there, if any.
\<close>

datatype fs_entry = Text "string list" | Audio AudioMetaData

type_synonym filesystem = "string \<Rightarrow> fs_entry option"

definition os_path_exists :: "filesystem \<Rightarrow> string \<Rightarrow> bool" where
  "os_path_exists fs p = (fs p \<noteq> None)"

text \<open>The probe of a path that holds no audio file fails.\<close>

definition torchaudio_info :: "filesystem \<Rightarrow> string \<Rightarrow> error + AudioMetaData" where
  "torchaudio_info fs p = (case fs p of Some (Audio m) \<Rightarrow> Inr m | _ \<Rightarrow> Inl RuntimeError)"

text \<open>What the script prints, in order.\<close>

datatype event =
    Processing string
  | ProtocolNotFound string
  | Head "row list"
  | MultipleChannels string
  | FileNotExist string
  | Written string

section \<open>Paths and names fixed by the script\<close>

definition root_folder :: string where
  "root_folder = ''./dataset''"

definition dataset_name :: string where
  "dataset_name = ''ASVspoof2019_LA''"

definition ID_PREFIX :: string where
  "ID_PREFIX = ''ASV19LA-''"

definition data_folder :: string where
  "data_folder = os_path_join root_folder [dataset_name]"

definition output_csv :: string where
  "output_csv = dataset_name @ ''.csv''"

definition protocol_files :: "string list" where
  "protocol_files =
     [''ASVspoof2019.LA.cm.train.trn.txt'',
      ''ASVspoof2019.LA.cm.dev.trl.txt'',
      ''ASVspoof2019.LA.cm.eval.trl.txt'']"

section \<open>\<^verbatim>\<open>read_protocol\<close>\<close>

definition converter_label :: "string \<Rightarrow> string" where
  "converter_label x = (if x = ''bonafide'' then ''real'' else ''fake'')"

text \<open>The fields of a line: \<^verbatim>\<open>sep=' '\<close> cuts at every single space.\<close>

fun split_sep :: "char \<Rightarrow> string \<Rightarrow> string list" where
  "split_sep sep [] = [[]]"
| "split_sep sep (c # cs) =
     (if c = sep then [] # split_sep sep cs
      else (case split_sep sep cs of
              [] \<Rightarrow> [[c]]
            | w # ws \<Rightarrow> (c # w) # ws))"

text \<open>
  \<^verbatim>\<open>pd.read_csv\<close> is a library call, and what it makes of an arbitrary file (short and long
  lines, quoted fields, columns that it re-types as numbers, booleans or missing values) is
  not in the source. So \<^verbatim>\<open>read_protocol\<close> and all that calls it take the reader as a
  parameter: a function from the lines of a file to the table of its rows, or an exception.
\<close>

type_synonym csv_reader = "string list \<Rightarrow> error + row list"

text \<open>
  The reader on a file in the format that the protocol files have: five fields of text on
  every line. With \<^verbatim>\<open>names=['Speaker', 'ID', 'UN', 'Attack', 'Label']\<close> and the label converter
  such a line gives the row below; \<^verbatim>\<open>skip_blank_lines\<close> is left at its default, so an empty
  line gives no row. The fields of the protocol files (speaker and utterance names with
  letters, \<open>-\<close>, attack names, \<open>bonafide\<close> and \<open>spoof\<close>) stay strings, and so they do here.
  Outside the format this function does not follow pandas, which pads a short line, shifts a
  long one, unquotes fields and re-types whole columns: a line with another number of fields
  is taken as a parser error. It is used on files in the format only; what holds of every run
  is stated for an arbitrary reader.
\<close>

definition parse_line :: "string \<Rightarrow> error + row" where
  "parse_line l =
     (case split_sep CHR '' '' l of
        [speaker, i, un, attack, label] \<Rightarrow>
          Inr [(''Speaker'', CStr speaker), (''ID'', CStr i), (''UN'', CStr un),
               (''Attack'', CStr attack), (''Label'', CStr (converter_label label))]
      | _ \<Rightarrow> Inl ParserError)"

fun parse_lines :: csv_reader where
  "parse_lines [] = Inr []"
| "parse_lines (l # ls) =
     (if l = [] then parse_lines ls
      else (case parse_line l of
              Inl e \<Rightarrow> Inl e
            | Inr r \<Rightarrow> (case parse_lines ls of Inl e \<Rightarrow> Inl e | Inr rs \<Rightarrow> Inr (r # rs))))"

definition read_protocol ::
  "csv_reader \<Rightarrow> filesystem \<Rightarrow> string \<Rightarrow> event list \<times> (error + row list)" where
  "read_protocol read_csv fs protocol_file =
     (case fs protocol_file of
        Some (Text ls) \<Rightarrow>
          (case read_csv ls of
             Inl e \<Rightarrow> ([], Inl e)
           | Inr metadata \<Rightarrow> ([Head (take 5 metadata)], Inr metadata))
      | _ \<Rightarrow> ([], Inl ParserError))"

section \<open>\<^verbatim>\<open>collect_audio_metadata\<close>\<close>

text \<open>
  The local variables of \<^verbatim>\<open>__get_audio_meta\<close> that the two branches of the existence test
  assign. \<^verbatim>\<open>lang\<close> is assigned in the first branch only: in the second it stays unbound.
\<close>

record audio_vars =
  v_duration :: cell
  v_sample_rate :: int
  v_filepath :: string
  v_encoding :: string
  v_bitpersample :: int
  v_num_channels :: int
  v_lang :: "string option"

definition subset_of :: "string \<Rightarrow> string \<times> string" where
  "subset_of i =
     (if str_in ''T_'' i then (''ASVspoof2019_LA_train'', ''train'')
      else if str_in ''D_'' i then (''ASVspoof2019_LA_dev'', ''valid'')
      else (''ASVspoof2019_LA_eval'', ''test''))"

definition audio_file_path :: "string \<Rightarrow> string" where
  "audio_file_path i = os_path_join data_folder [fst (subset_of i), ''flac'', i @ ''.flac'']"

text \<open>Lines 100 to 126: the header probe of an existing file, or the values for a missing one.\<close>

definition probe_file :: "filesystem \<Rightarrow> string \<Rightarrow> event list \<times> (error + audio_vars)" where
  "probe_file fs file_path =
     (if os_path_exists fs file_path then
        (case torchaudio_info fs file_path of
           Inl e \<Rightarrow> ([], Inl e)
         | Inr metainfo \<Rightarrow>
             (case py_truediv (num_frames metainfo) (sample_rate metainfo) of
                Inl e \<Rightarrow> ([], Inl e)
              | Inr q \<Rightarrow>
                  (if 1 < num_channels metainfo then [MultipleChannels file_path] else [],
                   Inr \<lparr>v_duration = CFloat (py_round2 q),
                        v_sample_rate = sample_rate metainfo,
                        v_filepath = str_replace file_path root_folder ''$ROOT/'',
                        v_encoding = encoding metainfo,
                        v_bitpersample = bits_per_sample metainfo,
                        v_num_channels = num_channels metainfo,
                        v_lang = Some ''EN''\<rparr>)))
      else
        ([FileNotExist file_path],
         Inr \<lparr>v_duration = CInt (- 1),
              v_sample_rate = - 1,
              v_filepath = [],
              v_encoding = [],
              v_bitpersample = - 1,
              v_num_channels = - 1,
              v_lang = None\<rparr>))"

text \<open>
  Lines 127 to 136: the assignments to the row. Reading the unbound \<^verbatim>\<open>lang\<close> raises; the
  row is the function's own copy, so nothing of the eight assignments before it is kept.
\<close>

definition assign_row :: "row \<Rightarrow> string \<Rightarrow> string \<Rightarrow> audio_vars \<Rightarrow> error + row" where
  "assign_row row file_id subset_id vs =
     (case v_lang vs of
        None \<Rightarrow> Inl UnboundLocalError
      | Some lang \<Rightarrow>
          Inr (foldl (\<lambda>r (k, v). AList.update k v r) row
                 [(''ID'', CStr file_id),
                  (''Duration'', v_duration vs),
                  (''SampleRate'', CInt (v_sample_rate vs)),
                  (''Path'', CStr (v_filepath vs)),
                  (''Proportion'', CStr subset_id),
                  (''AudioChannel'', CInt (v_num_channels vs)),
                  (''AudioEncoding'', CStr (v_encoding vs)),
                  (''AudioBitSample'', CInt (v_bitpersample vs)),
                  (''Language'', CStr lang)]))"

text \<open>
  \<^verbatim>\<open>__get_audio_meta\<close>. \<^verbatim>\<open>row['ID']\<close> and \<^verbatim>\<open>row["Label"]\<close> raise \<^verbatim>\<open>KeyError\<close> on a row without
  the column, and \<^verbatim>\<open>'T_' in row['ID']\<close> raises \<^verbatim>\<open>TypeError\<close> unless the ID is a string.
\<close>

definition get_audio_meta :: "filesystem \<Rightarrow> row \<Rightarrow> event list \<times> (error + row)" where
  "get_audio_meta fs row =
     (case map_of row ''ID'' of
        None \<Rightarrow> ([], Inl KeyError)
      | Some (CStr i) \<Rightarrow>
          (let subset_id = snd (subset_of i);
               file_path = audio_file_path i;
               file_id = ID_PREFIX @ i
           in case map_of row ''Label'' of
                None \<Rightarrow> ([], Inl KeyError)
              | Some label \<Rightarrow>
                  (case probe_file fs file_path of
                     (msgs, Inl e) \<Rightarrow> (msgs, Inl e)
                   | (msgs, Inr vs) \<Rightarrow> (msgs, assign_row row file_id subset_id vs)))
      | Some _ \<Rightarrow> ([], Inl TypeError))"

text \<open>
  \<^verbatim>\<open>metadata.parallel_apply(..., axis=1)\<close>: the function is applied to every row and the
  results are put together in the order of the rows. The first exception ends the run. The
  model goes through the rows in their order.
\<close>

fun apply_rows :: "filesystem \<Rightarrow> row list \<Rightarrow> event list \<times> (error + row list)" where
  "apply_rows fs [] = ([], Inr [])"
| "apply_rows fs (r # rs) =
     (case get_audio_meta fs r of
        (msgs, Inl e) \<Rightarrow> (msgs, Inl e)
      | (msgs, Inr r') \<Rightarrow>
          (case apply_rows fs rs of
             (msgs', Inl e) \<Rightarrow> (msgs @ msgs', Inl e)
           | (msgs', Inr rs') \<Rightarrow> (msgs @ msgs', Inr (r' # rs'))))"

text \<open>
  On a frame without rows the parallel map has nothing to give to a worker and raises
  \<^verbatim>\<open>ValueError\<close>.
\<close>

definition collect_audio_metadata ::
  "filesystem \<Rightarrow> row list \<Rightarrow> event list \<times> (error + row list)" where
  "collect_audio_metadata fs metadata =
     (if metadata = [] then ([], Inl ValueError) else apply_rows fs metadata)"

section \<open>\<^verbatim>\<open>write_csv\<close>\<close>

text \<open>The table written to the output file: its header row and its data rows.\<close>

record csv =
  csv_header :: "string list"
  csv_rows :: "cell list list"

definition header :: "string list" where
  "header =
     [''ID'', ''Label'', ''Duration'', ''SampleRate'', ''Path'', ''Attack'', ''Speaker'',
      ''Proportion'', ''AudioChannel'', ''AudioEncoding'', ''AudioBitSample'', ''Language'']"

text \<open>
  \<^verbatim>\<open>pd.DataFrame(records)\<close> has the columns that occur in some record, and the missing value
  where a record lacks a column. Selecting a column that the frame does not have raises
  \<^verbatim>\<open>KeyError\<close>; the frame made of no record has no column.
\<close>

definition frame_columns :: "row list \<Rightarrow> string list" where
  "frame_columns records = rev (remdups (rev (concat (map (map fst) records))))"

definition frame_cell :: "row \<Rightarrow> string \<Rightarrow> cell" where
  "frame_cell r k = (case map_of r k of None \<Rightarrow> NaN | Some v \<Rightarrow> v)"

text \<open>
  The frame gives every column one type. A column whose cells are all numbers or missing
  values, and not all integers, is a column of floats: its integers are written as floats.
  A column with a string or a boolean in it keeps every cell as it is, and so does a column
  of integers. (The integers are those of pandas and of the header probe, within 64 bits.)
\<close>

definition numeric_cell :: "cell \<Rightarrow> bool" where
  "numeric_cell c = (case c of CInt n \<Rightarrow> True | CFloat x \<Rightarrow> True | NaN \<Rightarrow> True | _ \<Rightarrow> False)"

definition int_cell :: "cell \<Rightarrow> bool" where
  "int_cell c = (case c of CInt n \<Rightarrow> True | _ \<Rightarrow> False)"

definition float_column :: "cell list \<Rightarrow> bool" where
  "float_column col = (list_all numeric_cell col \<and> \<not> list_all int_cell col)"

definition as_float :: "cell \<Rightarrow> cell" where
  "as_float c = (case c of CInt n \<Rightarrow> CFloat (to_binary64 (of_int n)) | _ \<Rightarrow> c)"

definition frame_column :: "row list \<Rightarrow> string \<Rightarrow> cell list" where
  "frame_column records k = map (\<lambda>r. frame_cell r k) records"

definition typed_cell :: "row list \<Rightarrow> row \<Rightarrow> string \<Rightarrow> cell" where
  "typed_cell records r k =
     (if float_column (frame_column records k) then as_float (frame_cell r k)
      else frame_cell r k)"

definition write_csv :: "row list \<Rightarrow> error + csv" where
  "write_csv metadata =
     (if \<exists>k \<in> set header. k \<notin> set (frame_columns metadata) then Inl KeyError
      else Inr \<lparr>csv_header = header,
                csv_rows = map (\<lambda>r. map (typed_cell metadata r) header) metadata\<rparr>)"

text \<open>The header line of the file: the column names, separated by commas.\<close>

fun comma_join :: "string list \<Rightarrow> string" where
  "comma_join [] = []"
| "comma_join [x] = x"
| "comma_join (x # y # ys) = x @ '','' @ comma_join (y # ys)"

section \<open>The main script\<close>

text \<open>
  The loop over the protocol files, with the records combined so far. A protocol file that
  does not exist is skipped; the records of the others are appended without their
  \<^verbatim>\<open>UN\<close> column.
\<close>

definition protocol_path :: "string \<Rightarrow> string" where
  "protocol_path protocol_file =
     os_path_join data_folder [''ASVspoof2019_LA_cm_protocols'', protocol_file]"

fun process_protocols ::
  "csv_reader \<Rightarrow> filesystem \<Rightarrow> string list \<Rightarrow> row list
   \<Rightarrow> event list \<times> (error + row list)" where
  "process_protocols read_csv fs [] combined_metadata = ([], Inr combined_metadata)"
| "process_protocols read_csv fs (f # files) combined_metadata =
     (let protocol_file = protocol_path f in
      if \<not> os_path_exists fs protocol_file then
        (case process_protocols read_csv fs files combined_metadata of
           (msgs, res) \<Rightarrow> ([Processing protocol_file, ProtocolNotFound protocol_file] @ msgs, res))
      else
        (case read_protocol read_csv fs protocol_file of
           (msgs1, Inl e) \<Rightarrow> (Processing protocol_file # msgs1, Inl e)
         | (msgs1, Inr protocol_data) \<Rightarrow>
             (case collect_audio_metadata fs protocol_data of
                (msgs2, Inl e) \<Rightarrow> (Processing protocol_file # msgs1 @ msgs2, Inl e)
              | (msgs2, Inr metadata) \<Rightarrow>
                  (case process_protocols read_csv fs files
                          (combined_metadata @ map (AList.delete ''UN'') metadata) of
                     (msgs, res) \<Rightarrow> (Processing protocol_file # msgs1 @ msgs2 @ msgs, res)))))"

definition main :: "csv_reader \<Rightarrow> filesystem \<Rightarrow> event list \<times> (error + csv)" where
  "main read_csv fs =
     (case process_protocols read_csv fs protocol_files [] of
        (msgs, Inl e) \<Rightarrow> (msgs, Inl e)
      | (msgs, Inr combined_metadata) \<Rightarrow>
          (case write_csv combined_metadata of
             Inl e \<Rightarrow> (msgs, Inl e)
           | Inr table \<Rightarrow> (msgs @ [Written output_csv], Inr table)))"

section \<open>Notions used in the statements\<close>

text \<open>
  The row that lines 127 to 135 build from a row, its raw ID, the header of its audio file
  and the quotient of the number of frames by the sample rate, in closed form.
\<close>

definition enrich :: "row \<Rightarrow> string \<Rightarrow> AudioMetaData \<Rightarrow> rat \<Rightarrow> row" where
  "enrich row i m q =
     AList.update ''Language'' (CStr ''EN'')
      (AList.update ''AudioBitSample'' (CInt (bits_per_sample m))
        (AList.update ''AudioEncoding'' (CStr (encoding m))
          (AList.update ''AudioChannel'' (CInt (num_channels m))
            (AList.update ''Proportion'' (CStr (snd (subset_of i)))
              (AList.update ''Path'' (CStr (str_replace (audio_file_path i) root_folder ''$ROOT/''))
                (AList.update ''SampleRate'' (CInt (sample_rate m))
                  (AList.update ''Duration'' (CFloat (py_round2 q))
                    (AList.update ''ID'' (CStr (ID_PREFIX @ i)) row))))))))"

text \<open>The eight columns that the enrichment adds, in the order of the assignments.\<close>

definition new_columns :: "string list" where
  "new_columns = [''Duration'', ''SampleRate'', ''Path'', ''Proportion'', ''AudioChannel'',
     ''AudioEncoding'', ''AudioBitSample'', ''Language'']"

text \<open>The example of the protocol documentation: one line of the dev protocol and its audio file.\<close>

definition example_row :: row where
  "example_row = [(''Speaker'', CStr ''LA_0069''), (''ID'', CStr ''LA_D_1047731''),
     (''UN'', CStr ''-''), (''Attack'', CStr ''-''), (''Label'', CStr ''real'')]"

definition example_audio :: AudioMetaData where
  "example_audio = \<lparr>sample_rate = 16000, num_frames = 32000, num_channels = 1,
     bits_per_sample = 16, encoding = ''FLAC''\<rparr>"

definition example_fs :: filesystem where
  "example_fs =
     [protocol_path ''ASVspoof2019.LA.cm.dev.trl.txt'' \<mapsto>
        Text [''LA_0069 LA_D_1047731 - - bonafide''],
      ''./dataset/ASVspoof2019_LA/ASVspoof2019_LA_dev/flac/LA_D_1047731.flac'' \<mapsto>
        Audio example_audio]"

definition example_enriched :: row where
  "example_enriched = [(''Speaker'', CStr ''LA_0069''), (''ID'', CStr ''ASV19LA-LA_D_1047731''),
     (''UN'', CStr ''-''), (''Attack'', CStr ''-''), (''Label'', CStr ''real''),
     (''Duration'', CFloat 2), (''SampleRate'', CInt 16000),
     (''Path'', CStr ''$ROOT//ASVspoof2019_LA/ASVspoof2019_LA_dev/flac/LA_D_1047731.flac''),
     (''Proportion'', CStr ''valid''), (''AudioChannel'', CInt 1),
     (''AudioEncoding'', CStr ''FLAC''), (''AudioBitSample'', CInt 16),
     (''Language'', CStr ''EN'')]"

text \<open>The lines of a protocol file, none when it does not exist or is no text file.\<close>

definition protocol_lines :: "filesystem \<Rightarrow> string \<Rightarrow> string list" where
  "protocol_lines fs f = (case fs (protocol_path f) of Some (Text ls) \<Rightarrow> ls | _ \<Rightarrow> [])"

text \<open>
  The rows that \<^const>\<open>read_protocol\<close> returns for a protocol file, none when the file does not
  exist (or cannot be read).
\<close>

definition rows_read :: "csv_reader \<Rightarrow> filesystem \<Rightarrow> string \<Rightarrow> row list" where
  "rows_read read_csv fs f =
     (if os_path_exists fs (protocol_path f) then
        (case snd (read_protocol read_csv fs (protocol_path f)) of
           Inl e \<Rightarrow> []
         | Inr metadata \<Rightarrow> metadata)
      else [])"

text \<open>The cells that \<^const>\<open>write_csv\<close> writes for a record of a frame.\<close>

definition csv_cells :: "row list \<Rightarrow> row \<Rightarrow> cell list" where
  "csv_cells records r = map (typed_cell records r) header"




text \<open>The table that the run on the example writes.\<close>

definition example_table :: csv where
  "example_table =
     \<lparr>csv_header =
        [''ID'', ''Label'', ''Duration'', ''SampleRate'', ''Path'', ''Attack'', ''Speaker'',
         ''Proportion'', ''AudioChannel'', ''AudioEncoding'', ''AudioBitSample'', ''Language''],
      csv_rows =
        [[CStr ''ASV19LA-LA_D_1047731'', CStr ''real'', CFloat 2, CInt 16000,
          CStr ''$ROOT//ASVspoof2019_LA/ASVspoof2019_LA_dev/flac/LA_D_1047731.flac'',
          CStr ''-'', CStr ''LA_0069'', CStr ''valid'', CInt 1, CStr ''FLAC'', CInt 16,
          CStr ''EN'']]\<rparr>"

text \<open>A row whose ID contains the name of the root folder, and a file system with its audio file.\<close>

definition nested_row :: row where
  "nested_row = [(''Speaker'', CStr ''LA_0069''), (''ID'', CStr ''T_./dataset''),
     (''UN'', CStr ''-''), (''Attack'', CStr ''-''), (''Label'', CStr ''real'')]"

definition nested_fs :: filesystem where
  "nested_fs =
     [''./dataset/ASVspoof2019_LA/ASVspoof2019_LA_train/flac/T_./dataset.flac'' \<mapsto>
        Audio example_audio]"



section \<open>Lemmas about the operations\<close>

lemma str_in_iff: "str_in sub s \<longleftrightarrow> (\<exists>a b. s = a @ sub @ b)"
proof (induction s)
  case Nil
  then show ?case by auto
next
  case (Cons c cs)
  show ?case
  proof
    assume "str_in sub (c # cs)"
    then consider "prefix sub (c # cs)" | "str_in sub cs" by auto
    then show "\<exists>a b. c # cs = a @ sub @ b"
    proof cases
      case 1
      then obtain b where "c # cs = sub @ b" by (auto simp: prefix_def)
      then have "c # cs = [] @ sub @ b" by simp
      then show ?thesis by blast
    next
      case 2
      with Cons.IH obtain a b where "cs = a @ sub @ b" by blast
      then have "c # cs = (c # a) @ sub @ b" by simp
      then show ?thesis by blast
    qed
  next
    assume "\<exists>a b. c # cs = a @ sub @ b"
    then obtain a b where ab: "c # cs = a @ sub @ b" by blast
    show "str_in sub (c # cs)"
    proof (cases a)
      case Nil
      with ab have "prefix sub (c # cs)" by (simp add: prefix_def)
      then show ?thesis by simp
    next
      case (Cons x a')
      with ab have "cs = a' @ sub @ b" by simp
      with Cons.IH have "str_in sub cs" by blast
      then show ?thesis by simp
    qed
  qed
qed

lemma probe_file_Inr:
  "probe_file fs p = (msgs, Inr vs) \<Longrightarrow> v_lang vs \<noteq> None \<Longrightarrow>
   \<exists>m q. fs p = Some (Audio m) \<and> py_truediv (num_frames m) (sample_rate m) = Inr q \<and>
     msgs = (if 1 < num_channels m then [MultipleChannels p] else []) \<and>
     vs = \<lparr>v_duration = CFloat (py_round2 q), v_sample_rate = sample_rate m,
            v_filepath = str_replace p root_folder ''$ROOT/'', v_encoding = encoding m,
            v_bitpersample = bits_per_sample m, v_num_channels = num_channels m,
            v_lang = Some ''EN''\<rparr>"
  by (auto simp: probe_file_def os_path_exists_def torchaudio_info_def
      split: if_splits option.splits fs_entry.splits sum.splits)



lemma get_audio_meta_Inr:
  assumes "get_audio_meta fs row = (msgs, Inr r')"
  shows "\<exists>i lab m q. map_of row ''ID'' = Some (CStr i) \<and> map_of row ''Label'' = Some lab \<and>
     fs (audio_file_path i) = Some (Audio m) \<and>
     py_truediv (num_frames m) (sample_rate m) = Inr q \<and>
     msgs = (if 1 < num_channels m then [MultipleChannels (audio_file_path i)] else []) \<and>
     r' = enrich row i m q"
proof -
  from assms obtain i where i: "map_of row ''ID'' = Some (CStr i)"
    by (auto simp: get_audio_meta_def split: option.splits cell.splits)
  from assms i obtain lab where lab: "map_of row ''Label'' = Some lab"
    by (auto simp: get_audio_meta_def Let_def split: option.splits)
  from assms i lab obtain vs where vs: "probe_file fs (audio_file_path i) = (msgs, Inr vs)"
    and a: "assign_row row (ID_PREFIX @ i) (snd (subset_of i)) vs = Inr r'"
    by (auto simp: get_audio_meta_def Let_def split: prod.splits sum.splits)
  from a have "v_lang vs \<noteq> None" by (auto simp: assign_row_def split: option.splits)
  from probe_file_Inr [OF vs this] obtain m q where
    m: "fs (audio_file_path i) = Some (Audio m)" and q: "py_truediv (num_frames m) (sample_rate m) = Inr q"
    and ms: "msgs = (if 1 < num_channels m then [MultipleChannels (audio_file_path i)] else [])"
    and v: "vs = \<lparr>v_duration = CFloat (py_round2 q), v_sample_rate = sample_rate m,
            v_filepath = str_replace (audio_file_path i) root_folder ''$ROOT/'', v_encoding = encoding m,
            v_bitpersample = bits_per_sample m, v_num_channels = num_channels m,
            v_lang = Some ''EN''\<rparr>" by blast
  from a v have "r' = enrich row i m q" by (simp add: assign_row_def enrich_def)
  with i lab m q ms show ?thesis by blast
qed

lemma get_audio_meta_ok:
  assumes "map_of row ''ID'' = Some (CStr i)" "map_of row ''Label'' = Some lab"
    "fs (audio_file_path i) = Some (Audio m)" "py_truediv (num_frames m) (sample_rate m) = Inr q"
  shows "get_audio_meta fs row =
     (if 1 < num_channels m then [MultipleChannels (audio_file_path i)] else [], Inr (enrich row i m q))"
  using assms
  by (simp add: get_audio_meta_def Let_def probe_file_def os_path_exists_def torchaudio_info_def
      assign_row_def enrich_def)

lemma get_audio_meta_missing:
  assumes "map_of row ''ID'' = Some (CStr i)" "map_of row ''Label'' = Some lab"
    "fs (audio_file_path i) = None"
  shows "get_audio_meta fs row = ([FileNotExist (audio_file_path i)], Inl UnboundLocalError)"
  using assms
  by (simp add: get_audio_meta_def Let_def probe_file_def os_path_exists_def assign_row_def)

lemma map_of_enrich:
  "map_of (enrich row i m q) =
    (map_of row)(''ID'' \<mapsto> CStr (ID_PREFIX @ i), ''Duration'' \<mapsto> CFloat (py_round2 q),
      ''SampleRate'' \<mapsto> CInt (sample_rate m),
      ''Path'' \<mapsto> CStr (str_replace (audio_file_path i) root_folder ''$ROOT/''),
      ''Proportion'' \<mapsto> CStr (snd (subset_of i)),
      ''AudioChannel'' \<mapsto> CInt (num_channels m), ''AudioEncoding'' \<mapsto> CStr (encoding m),
      ''AudioBitSample'' \<mapsto> CInt (bits_per_sample m), ''Language'' \<mapsto> CStr ''EN'')"
  by (simp add: enrich_def update_conv')

lemma parse_line_Inr:
  "parse_line l = Inr r \<Longrightarrow>
   \<exists>sp i un atk lab. split_sep CHR '' '' l = [sp, i, un, atk, lab] \<and>
     r = [(''Speaker'', CStr sp), (''ID'', CStr i), (''UN'', CStr un),
          (''Attack'', CStr atk), (''Label'', CStr (converter_label lab))]"
  by (auto simp: parse_line_def split: list.splits)

lemma example_get_audio_meta: "get_audio_meta example_fs example_row = ([], Inr example_enriched)"
  by code_simp

lemma example_parse: "parse_line ''LA_0069 LA_D_1047731 - - bonafide'' = Inr example_row"
  by code_simp

lemma keys_foldl_update:
  "fst ` set (foldl (\<lambda>r (k, v). AList.update k v r) row kvs) = fst ` set row \<union> fst ` set kvs"
proof (induction kvs arbitrary: row)
  case Nil
  show ?case by simp
next
  case (Cons kv kvs)
  obtain k v where kv: "kv = (k, v)" by (cases kv)
  have "fst ` set (foldl (\<lambda>r (k, v). AList.update k v r) row (kv # kvs)) =
        fst ` set (AList.update k v row) \<union> fst ` set kvs"
    by (simp add: kv Cons.IH)
  also have "\<dots> = ({k} \<union> fst ` set row) \<union> fst ` set kvs" by (simp only: dom_update)
  also have "\<dots> = fst ` set row \<union> fst ` set (kv # kvs)" by (auto simp: kv)
  finally show ?case .
qed

lemma enrich_foldl:
  "enrich row i m q = foldl (\<lambda>r (k, v). AList.update k v r) row
     [(''ID'', CStr (ID_PREFIX @ i)),
      (''Duration'', CFloat (py_round2 q)),
      (''SampleRate'', CInt (sample_rate m)),
      (''Path'', CStr (str_replace (audio_file_path i) root_folder ''$ROOT/'')),
      (''Proportion'', CStr (snd (subset_of i))),
      (''AudioChannel'', CInt (num_channels m)),
      (''AudioEncoding'', CStr (encoding m)),
      (''AudioBitSample'', CInt (bits_per_sample m)),
      (''Language'', CStr ''EN'')]"
  by (simp add: enrich_def)

lemma keys_enrich_set:
  assumes "''ID'' \<in> fst ` set row"
  shows "fst ` set (enrich row i m q) = fst ` set row \<union> set new_columns"
proof -
  have "fst ` set (enrich row i m q) = fst ` set row \<union> insert ''ID'' (set new_columns)"
    by (simp only: enrich_foldl keys_foldl_update) (simp add: new_columns_def)
  also have "\<dots> = insert ''ID'' (fst ` set row \<union> set new_columns)" by (rule Un_insert_right)
  also have "\<dots> = fst ` set row \<union> set new_columns"
    by (rule insert_absorb) (use assms in blast)
  finally show ?thesis .
qed

lemma keys_enrich_order:
  assumes "''ID'' \<in> fst ` set row" "fst ` set row \<inter> set new_columns = {}"
  shows "map fst (enrich row i m q) = map fst row @ new_columns"
proof -
  from assms(2) have n: "''Duration'' \<notin> fst ` set row" "''SampleRate'' \<notin> fst ` set row"
    "''Path'' \<notin> fst ` set row" "''Proportion'' \<notin> fst ` set row"
    "''AudioChannel'' \<notin> fst ` set row" "''AudioEncoding'' \<notin> fst ` set row"
    "''AudioBitSample'' \<notin> fst ` set row" "''Language'' \<notin> fst ` set row"
    by (auto simp: new_columns_def)
  show ?thesis
    unfolding enrich_def new_columns_def
    using assms(1) n by (simp add: update_keys)
qed



lemma rows_read_cases:
  "rows_read rd fs f =
     (case fs (protocol_path f) of
        Some (Text ls) \<Rightarrow> (case rd ls of Inl e \<Rightarrow> [] | Inr rows \<Rightarrow> rows)
      | _ \<Rightarrow> [])"
  by (simp add: rows_read_def read_protocol_def os_path_exists_def
      split: option.splits fs_entry.splits sum.splits)

lemma process_protocols_missing:
  assumes "fs (protocol_path f) = None"
  shows "process_protocols rd fs (f # files) c =
     ([Processing (protocol_path f), ProtocolNotFound (protocol_path f)]
        @ fst (process_protocols rd fs files c),
      snd (process_protocols rd fs files c))"
  using assms by (simp add: os_path_exists_def Let_def split: prod.splits)



lemma process_protocols_Cons:
  "process_protocols rd fs (f # files) c =
     (case fs (protocol_path f) of
        None \<Rightarrow>
          ([Processing (protocol_path f), ProtocolNotFound (protocol_path f)]
             @ fst (process_protocols rd fs files c),
           snd (process_protocols rd fs files c))
      | Some e \<Rightarrow>
          (case read_protocol rd fs (protocol_path f) of
             (msgs1, Inl e) \<Rightarrow> (Processing (protocol_path f) # msgs1, Inl e)
           | (msgs1, Inr protocol_data) \<Rightarrow>
               (case collect_audio_metadata fs protocol_data of
                  (msgs2, Inl e) \<Rightarrow> (Processing (protocol_path f) # msgs1 @ msgs2, Inl e)
                | (msgs2, Inr metadata) \<Rightarrow>
                    (Processing (protocol_path f) # msgs1 @ msgs2
                       @ fst (process_protocols rd fs files (c @ map (AList.delete ''UN'') metadata)),
                     snd (process_protocols rd fs files (c @ map (AList.delete ''UN'') metadata))))))"
  by (simp add: os_path_exists_def Let_def split: option.splits prod.splits sum.splits)

declare process_protocols.simps(2) [simp del]

lemma process_protocols_append:
  "process_protocols rd fs (xs @ ys) c =
     (case process_protocols rd fs xs c of
        (msgs, Inl e) \<Rightarrow> (msgs, Inl e)
      | (msgs, Inr c') \<Rightarrow>
          (msgs @ fst (process_protocols rd fs ys c'), snd (process_protocols rd fs ys c')))"
proof (induction xs arbitrary: c)
  case Nil
  show ?case by simp
next
  case (Cons f xs)
  show ?case
    by (simp add: process_protocols_Cons Cons.IH split: option.splits prod.splits sum.splits)
qed




lemma write_csv_Inr:
  "write_csv records = Inr t \<Longrightarrow>
   csv_header t = header \<and> csv_rows t = map (csv_cells records) records"
  by (auto simp: write_csv_def csv_cells_def split: if_splits)

lemma main_Inr:
  "main rd fs = (msgs, Inr t) \<Longrightarrow>
   \<exists>records. snd (process_protocols rd fs protocol_files []) = Inr records
     \<and> write_csv records = Inr t"
  by (auto simp: main_def split: prod.splits sum.splits)


lemma UN_not_in_header: "''UN'' \<notin> set header"
  by (simp add: header_def)













lemma example_write_csv: "write_csv [rev example_enriched] = Inr example_table"
  by code_simp



lemma replace_from_skip: "replace_from old new k s = replace_from old new 0 (drop k s)"
proof (induction k arbitrary: s)
  case 0
  show ?case by simp
next
  case (Suc k)
  show ?case
  proof (cases s)
    case Nil
    then show ?thesis by simp
  next
    case (Cons c cs)
    then show ?thesis using Suc.IH [of cs] by simp
  qed
qed

lemma replace_from_none: "\<not> str_in old s \<Longrightarrow> replace_from old new 0 s = s"
  by (induction s) auto

lemma str_replace_prefix_only:
  assumes "old \<noteq> []" "\<not> str_in old rest"
  shows "str_replace (old @ rest) old new = new @ rest"
proof -
  from assms(1) obtain c cs where old: "old = c # cs" by (cases old) auto
  have "replace_from old new 0 (old @ rest) = new @ replace_from old new (length old - 1) (cs @ rest)"
    by (simp add: old)
  also have "replace_from old new (length old - 1) (cs @ rest) = replace_from old new 0 rest"
    by (subst replace_from_skip) (simp add: old)
  also have "\<dots> = rest" using assms(2) by (rule replace_from_none)
  finally show ?thesis using assms(1) by (simp add: str_replace_def)
qed

lemma root_prefix_flac:
  "prefix ''./dataset'' (u @ ''.flac'') \<longleftrightarrow> prefix ''./dataset'' u"
proof
  assume "prefix ''./dataset'' u"
  then show "prefix ''./dataset'' (u @ ''.flac'')" by (rule prefix_prefix)
next
  assume a: "prefix ''./dataset'' (u @ ''.flac'')"
  show "prefix ''./dataset'' u"
  proof (cases "9 \<le> length u")
    case True
    from a obtain z where z: "u @ ''.flac'' = ''./dataset'' @ z" by (auto simp: prefix_def)
    have "take 9 u = take 9 (u @ ''.flac'')" using True by simp
    also have "\<dots> = take 9 (''./dataset'' @ z)" by (simp only: z)
    also have "\<dots> = ''./dataset''" by simp
    finally have "take 9 u = ''./dataset''" .
    then show ?thesis by (metis take_is_prefix)
  next
    case False
    from a obtain z where z: "u @ ''.flac'' = ''./dataset'' @ z" by (auto simp: prefix_def)
    from False have l: "length u < 9" by simp
    have "(u @ ''.flac'') ! length u = CHR ''.''" by (simp add: nth_append)
    then have d: "(''./dataset'' @ z) ! length u = CHR ''.''" by (simp only: z)
    have "(u @ ''.flac'') ! Suc (length u) = CHR ''f''" by (simp add: nth_append)
    then have f: "(''./dataset'' @ z) ! Suc (length u) = CHR ''f''" by (simp only: z)
    from l consider "length u = 0" | "length u = 1" | "length u = 2" | "length u = 3"
      | "length u = 4" | "length u = 5" | "length u = 6" | "length u = 7" | "length u = 8"
      by linarith
    then show ?thesis
    proof cases
      case 1
      with f show ?thesis by simp
    next
      case 2
      with d show ?thesis by simp
    next
      case 3
      with d show ?thesis by simp
    next
      case 4
      with d show ?thesis by simp
    next
      case 5
      with d show ?thesis by simp
    next
      case 6
      with d show ?thesis by simp
    next
      case 7
      with d show ?thesis by simp
    next
      case 8
      with d show ?thesis by simp
    next
      case 9
      with d show ?thesis by simp
    qed
  qed
qed

lemma str_in_root_flac: "str_in ''./dataset'' (i @ ''.flac'') \<longleftrightarrow> str_in ''./dataset'' i"
proof (induction i)
  case Nil
  show ?case by simp
next
  case (Cons c cs)
  have "prefix ''./dataset'' ((c # cs) @ ''.flac'') \<longleftrightarrow> prefix ''./dataset'' (c # cs)"
    by (rule root_prefix_flac)
  with Cons.IH show ?case by simp
qed

lemma data_folder_eq: "data_folder = ''./dataset/ASVspoof2019_LA''"
  by code_simp

lemma join_step_plain:
  assumes "\<not> prefix ''/'' b" "p \<noteq> []" "last p \<noteq> CHR ''/''"
  shows "join_step p b = p @ ''/'' @ b"
proof -
  from assms(2,3) have "\<not> suffix ''/'' p"
    by (auto simp: suffix_def)
  with assms(1,2) show ?thesis by (simp add: join_step_def)
qed

lemma audio_file_path_plain:
  assumes "\<not> prefix ''/'' i"
  shows "audio_file_path i =
     ''./dataset'' @ ''/ASVspoof2019_LA/'' @ fst (subset_of i) @ ''/flac/'' @ i @ ''.flac''"
proof -
  let ?s = "fst (subset_of i)"
  have s: "?s = ''ASVspoof2019_LA_train'' \<or> ?s = ''ASVspoof2019_LA_dev'' \<or> ?s = ''ASVspoof2019_LA_eval''"
    by (simp add: subset_of_def)
  then have s1: "\<not> prefix ''/'' ?s" and s2: "?s \<noteq> []" and s3: "last ?s \<noteq> CHR ''/''"
    by auto
  have 1: "join_step data_folder ?s = ''./dataset/ASVspoof2019_LA/'' @ ?s"
    using join_step_plain [OF s1, of data_folder] by (simp add: data_folder_eq)
  have 2: "join_step (''./dataset/ASVspoof2019_LA/'' @ ?s) ''flac'' =
      ''./dataset/ASVspoof2019_LA/'' @ ?s @ ''/flac''"
    using join_step_plain [of "''flac''" "''./dataset/ASVspoof2019_LA/'' @ ?s"] s2 s3 by simp
  from assms have i: "\<not> prefix ''/'' (i @ ''.flac'')" by (cases i) auto
  have 3: "join_step (''./dataset/ASVspoof2019_LA/'' @ ?s @ ''/flac'') (i @ ''.flac'') =
      ''./dataset/ASVspoof2019_LA/'' @ ?s @ ''/flac/'' @ i @ ''.flac''"
    using join_step_plain [OF i, of "''./dataset/ASVspoof2019_LA/'' @ ?s @ ''/flac''"] by simp
  have "audio_file_path i =
      join_step (join_step (join_step data_folder ?s) ''flac'') (i @ ''.flac'')"
    by (simp only: audio_file_path_def os_path_join_def foldl.simps)
  also have "\<dots> = ''./dataset/ASVspoof2019_LA/'' @ ?s @ ''/flac/'' @ i @ ''.flac''"
    by (simp only: 1 2 3)
  finally show ?thesis by simp
qed

lemma no_root_in_rest:
  assumes "\<not> str_in ''./dataset'' i"
  shows "\<not> str_in ''./dataset'' (''/ASVspoof2019_LA/'' @ fst (subset_of i) @ ''/flac/'' @ i @ ''.flac'')"
proof -
  let ?s = "fst (subset_of i)"
  have s: "?s = ''ASVspoof2019_LA_train'' \<or> ?s = ''ASVspoof2019_LA_dev'' \<or> ?s = ''ASVspoof2019_LA_eval''"
    by (simp add: subset_of_def)
  from assms have e: "\<not> str_in ''./dataset'' (i @ ''.flac'')" by (simp add: str_in_root_flac)
  from s show ?thesis
  proof (elim disjE)
    assume "?s = ''ASVspoof2019_LA_train''"
    then show ?thesis using e by simp
  next
    assume "?s = ''ASVspoof2019_LA_dev''"
    then show ?thesis using e by simp
  next
    assume "?s = ''ASVspoof2019_LA_eval''"
    then show ?thesis using e by simp
  qed
qed

lemma path_with_root_replaced:
  assumes "\<not> prefix ''/'' i" "\<not> str_in ''./dataset'' i"
  shows "str_replace (audio_file_path i) ''./dataset'' ''$ROOT/'' =
     ''$ROOT/'' @ ''/ASVspoof2019_LA/'' @ fst (subset_of i) @ ''/flac/'' @ i @ ''.flac''"
  unfolding audio_file_path_plain [OF assms(1)]
  by (rule str_replace_prefix_only [OF _ no_root_in_rest [OF assms(2)]]) simp

section \<open>The label\<close>

text \<open>
  C4. Every row that the protocol reader yields has the label \<open>real\<close> or \<open>fake\<close>: \<open>real\<close>
  when the fifth field of its line is exactly \<open>bonafide\<close>, and \<open>fake\<close> for every other value.
  The enrichment keeps the label, so this is the label that is emitted.
\<close>

theorem label_real_or_fake:
  assumes "parse_line l = Inr r"
  shows "map_of r ''Label'' =
           Some (CStr (if split_sep CHR '' '' l ! 4 = ''bonafide'' then ''real'' else ''fake''))
       \<and> map_of r ''Label'' \<in> {Some (CStr ''real''), Some (CStr ''fake'')}
       \<and> (get_audio_meta fs r = (msgs, Inr r') \<longrightarrow> map_of r' ''Label'' = map_of r ''Label'')"
proof -
  from parse_line_Inr [OF assms] obtain sp i un atk lab where
    s: "split_sep CHR '' '' l = [sp, i, un, atk, lab]" and
    r: "r = [(''Speaker'', CStr sp), (''ID'', CStr i), (''UN'', CStr un),
          (''Attack'', CStr atk), (''Label'', CStr (converter_label lab))]" by blast
  have 1: "map_of r ''Label'' =
           Some (CStr (if split_sep CHR '' '' l ! 4 = ''bonafide'' then ''real'' else ''fake''))"
    by (simp add: r s converter_label_def)
  have 3: "get_audio_meta fs r = (msgs, Inr r') \<longrightarrow> map_of r' ''Label'' = map_of r ''Label''"
  proof
    assume "get_audio_meta fs r = (msgs, Inr r')"
    from get_audio_meta_Inr [OF this] obtain j m q where "r' = enrich r j m q" by blast
    then show "map_of r' ''Label'' = map_of r ''Label''" by (simp add: map_of_enrich)
  qed
  from 1 3 show ?thesis by simp
qed

theorem label_real_or_fake_witness:
  "parse_line ''LA_0069 LA_D_1047731 - - bonafide'' = Inr example_row
   \<and> map_of example_row ''Label'' = Some (CStr ''real'')
   \<and> map_of example_enriched ''Label'' = Some (CStr ''real'')"
  using label_real_or_fake [OF example_parse, of example_fs "[]" example_enriched]
    example_parse example_get_audio_meta
  by (simp add: example_row_def)

section \<open>A row whose audio file is missing\<close>

text \<open>
  C1. The specification has a row whose audio file does not exist still emitted, with the
  values \<open>-1\<close> and the empty string. The function assigns these values, but it never assigns
  \<^verbatim>\<open>lang\<close> on that path, so that \<^verbatim>\<open>row['Language'] = lang\<close> raises: on the first line of the
  protocol documentation, with no audio file on disk, the row is not returned, and a run
  that reads the line from the dev protocol ends with the exception.
\<close>

theorem missing_audio_raises:
  "get_audio_meta Map.empty example_row =
     ([FileNotExist ''./dataset/ASVspoof2019_LA/ASVspoof2019_LA_dev/flac/LA_D_1047731.flac''],
      Inl UnboundLocalError)
   \<and> snd (main parse_lines [protocol_path ''ASVspoof2019.LA.cm.dev.trl.txt'' \<mapsto>
                  Text [''LA_0069 LA_D_1047731 - - bonafide'']]) = Inl UnboundLocalError"
  by code_simp

section \<open>The proportion\<close>

text \<open>
  C5. The Proportion of an emitted row is \<open>train\<close>, \<open>valid\<close> or \<open>test\<close>, and the raw ID alone
  decides which: \<open>train\<close> when \<open>T_\<close> occurs somewhere in the ID, otherwise \<open>valid\<close> when \<open>D_\<close>
  occurs somewhere in it, otherwise \<open>test\<close>.
\<close>

theorem proportion_from_id:
  assumes "get_audio_meta fs row = (msgs, Inr r')"
  shows "\<exists>i. map_of row ''ID'' = Some (CStr i) \<and>
     map_of r' ''Proportion'' =
       Some (CStr (if \<exists>a b. i = a @ ''T_'' @ b then ''train''
                   else if \<exists>a b. i = a @ ''D_'' @ b then ''valid'' else ''test'')) \<and>
     map_of r' ''Proportion'' \<in> {Some (CStr ''train''), Some (CStr ''valid''), Some (CStr ''test'')}"
proof -
  from get_audio_meta_Inr [OF assms] obtain i m q where
    i: "map_of row ''ID'' = Some (CStr i)" and r': "r' = enrich row i m q" by blast
  have "map_of r' ''Proportion'' = Some (CStr (snd (subset_of i)))"
    by (simp add: r' map_of_enrich)
  then have "map_of r' ''Proportion'' =
       Some (CStr (if \<exists>a b. i = a @ ''T_'' @ b then ''train''
                   else if \<exists>a b. i = a @ ''D_'' @ b then ''valid'' else ''test''))"
    by (simp add: subset_of_def str_in_iff)
  with i show ?thesis by auto
qed

theorem proportion_from_id_witness:
  "get_audio_meta example_fs example_row = ([], Inr example_enriched)
   \<and> map_of example_row ''ID'' = Some (CStr ''LA_D_1047731'')
   \<and> map_of example_enriched ''Proportion'' = Some (CStr ''valid'')"
proof -
  from proportion_from_id [OF example_get_audio_meta] obtain i where
    i: "map_of example_row ''ID'' = Some (CStr i)" and
    p: "map_of example_enriched ''Proportion'' =
       Some (CStr (if \<exists>a b. i = a @ ''T_'' @ b then ''train''
                   else if \<exists>a b. i = a @ ''D_'' @ b then ''valid'' else ''test''))" by blast
  from i have i': "i = ''LA_D_1047731''" by (simp add: example_row_def)
  have "\<not> str_in ''T_'' ''LA_D_1047731''" "str_in ''D_'' ''LA_D_1047731''" by simp_all
  then have "\<not> (\<exists>a b. ''LA_D_1047731'' = a @ ''T_'' @ b)" "\<exists>a b. ''LA_D_1047731'' = a @ ''D_'' @ b"
    unfolding str_in_iff by blast+
  with p i' have "map_of example_enriched ''Proportion'' = Some (CStr ''valid'')" by simp
  with i i' example_get_audio_meta show ?thesis by simp
qed

section \<open>The header of the table\<close>

text \<open>
  C6. Whenever the table is written, by \<^const>\<open>write_csv\<close> on any records in any column order
  or by a whole run, its header is the twelve names ID, Label, Duration, SampleRate, Path,
  Attack, Speaker, Proportion, AudioChannel, AudioEncoding, AudioBitSample, Language in this
  order; \<open>UN\<close> is not among them, and every data row has twelve cells.
\<close>

theorem csv_header_fixed:
  "(write_csv records = Inr t \<or> main rd fs = (msgs, Inr t)) \<longrightarrow>
     csv_header t =
       [''ID'', ''Label'', ''Duration'', ''SampleRate'', ''Path'', ''Attack'', ''Speaker'',
        ''Proportion'', ''AudioChannel'', ''AudioEncoding'', ''AudioBitSample'', ''Language'']
     \<and> comma_join (csv_header t) =
       ''ID,Label,Duration,SampleRate,Path,Attack,Speaker,Proportion,AudioChannel,AudioEncoding,AudioBitSample,Language''
     \<and> ''UN'' \<notin> set (csv_header t)
     \<and> (\<forall>r \<in> set (csv_rows t). length r = 12)"
proof
  assume "write_csv records = Inr t \<or> main rd fs = (msgs, Inr t)"
  then obtain recs where "write_csv recs = Inr t"
    using main_Inr by blast
  from write_csv_Inr [OF this] have h: "csv_header t = header"
    and r: "csv_rows t = map (csv_cells recs) recs" by simp_all
  have 1: "csv_header t =
       [''ID'', ''Label'', ''Duration'', ''SampleRate'', ''Path'', ''Attack'', ''Speaker'',
        ''Proportion'', ''AudioChannel'', ''AudioEncoding'', ''AudioBitSample'', ''Language'']"
    by (simp only: h header_def)
  have 2: "comma_join (csv_header t) =
       ''ID,Label,Duration,SampleRate,Path,Attack,Speaker,Proportion,AudioChannel,AudioEncoding,AudioBitSample,Language''"
    by (simp add: h header_def)
  have 3: "''UN'' \<notin> set (csv_header t)" by (simp only: h UN_not_in_header not_False_eq_True)
  have "length (csv_cells recs x) = 12" for x by (simp add: csv_cells_def header_def)
  then have 4: "\<forall>r \<in> set (csv_rows t). length r = 12" by (auto simp: r)
  from 1 2 3 4 show "csv_header t =
       [''ID'', ''Label'', ''Duration'', ''SampleRate'', ''Path'', ''Attack'', ''Speaker'',
        ''Proportion'', ''AudioChannel'', ''AudioEncoding'', ''AudioBitSample'', ''Language'']
     \<and> comma_join (csv_header t) =
       ''ID,Label,Duration,SampleRate,Path,Attack,Speaker,Proportion,AudioChannel,AudioEncoding,AudioBitSample,Language''
     \<and> ''UN'' \<notin> set (csv_header t)
     \<and> (\<forall>r \<in> set (csv_rows t). length r = 12)" by blast
qed

theorem csv_header_fixed_witness:
  "write_csv [rev example_enriched] = Inr example_table
   \<and> map_of (rev example_enriched) ''UN'' = Some (CStr ''-'')
   \<and> map fst (rev example_enriched) =
       [''Language'', ''AudioBitSample'', ''AudioEncoding'', ''AudioChannel'', ''Proportion'',
        ''Path'', ''SampleRate'', ''Duration'', ''Label'', ''Attack'', ''UN'', ''ID'', ''Speaker'']
   \<and> comma_join (csv_header example_table) =
       ''ID,Label,Duration,SampleRate,Path,Attack,Speaker,Proportion,AudioChannel,AudioEncoding,AudioBitSample,Language''
   \<and> ''UN'' \<notin> set (csv_header example_table)"
proof -
  have u: "map_of (rev example_enriched) ''UN'' = Some (CStr ''-'')"
    and k: "map fst (rev example_enriched) =
       [''Language'', ''AudioBitSample'', ''AudioEncoding'', ''AudioChannel'', ''Proportion'',
        ''Path'', ''SampleRate'', ''Duration'', ''Label'', ''Attack'', ''UN'', ''ID'', ''Speaker'']"
    by (simp_all add: example_enriched_def)
  from csv_header_fixed [where records = "[rev example_enriched]" and t = example_table]
    example_write_csv u k
  show ?thesis by blast
qed

section \<open>Duration and path of a row whose audio file exists\<close>

text \<open>
  C3. The specification gives the path of the row as the file path with its leading data
  root replaced by \<open>$ROOT/\<close>. The code calls \<^verbatim>\<open>file_path.replace(root_folder, "$ROOT/")\<close>, which replaces every
  occurrence of \<open>./dataset\<close>. For the ID \<open>T_./dataset\<close> the audio file is \<open>dataset.flac\<close> in the
  directory \<open>T_.\<close>, and the emitted path has the token twice: it is neither the file path
  with the leading root folder \<open>./dataset\<close> replaced nor the one with the leading data folder
  \<open>./dataset/ASVspoof2019_LA\<close> replaced.
\<close>

theorem path_prefix_counterexample:
  "audio_file_path ''T_./dataset'' =
     ''./dataset/ASVspoof2019_LA/ASVspoof2019_LA_train/flac/T_./dataset.flac''
   \<and> snd (get_audio_meta nested_fs nested_row) =
     Inr [(''Speaker'', CStr ''LA_0069''), (''ID'', CStr ''ASV19LA-T_./dataset''),
          (''UN'', CStr ''-''), (''Attack'', CStr ''-''), (''Label'', CStr ''real''),
          (''Duration'', CFloat 2), (''SampleRate'', CInt 16000),
          (''Path'', CStr ''$ROOT//ASVspoof2019_LA/ASVspoof2019_LA_train/flac/T_$ROOT/.flac''),
          (''Proportion'', CStr ''train''), (''AudioChannel'', CInt 1),
          (''AudioEncoding'', CStr ''FLAC''), (''AudioBitSample'', CInt 16),
          (''Language'', CStr ''EN'')]
   \<and> ''$ROOT//ASVspoof2019_LA/ASVspoof2019_LA_train/flac/T_$ROOT/.flac'' \<noteq>
       ''$ROOT/'' @ drop (length root_folder) (audio_file_path ''T_./dataset'')
   \<and> ''$ROOT//ASVspoof2019_LA/ASVspoof2019_LA_train/flac/T_$ROOT/.flac'' \<noteq>
       ''$ROOT/'' @ drop (length data_folder) (audio_file_path ''T_./dataset'')"
  by code_simp

text \<open>
  C3, amended. For a row whose audio file exists and whose header gives a quotient \<open>q\<close> of the
  number of frames by the sample rate, the row is emitted, its Duration is \<open>round(q, 2)\<close>, and
  its Path is the file path with every occurrence of \<open>./dataset\<close> replaced by \<open>$ROOT/\<close>. When
  the ID does not start with \<open>/\<close> and does not contain \<open>./dataset\<close>, the file path is
  \<open>./dataset/ASVspoof2019_LA/<subset>/flac/<ID>.flac\<close> and the Path is this with the leading
  \<open>./dataset\<close> replaced by \<open>$ROOT/\<close>.
\<close>

theorem duration_and_path:
  assumes "map_of row ''ID'' = Some (CStr i)" and "map_of row ''Label'' = Some lab"
    and "fs (audio_file_path i) = Some (Audio m)"
    and "py_truediv (num_frames m) (sample_rate m) = Inr q"
  shows "\<exists>msgs r'. get_audio_meta fs row = (msgs, Inr r')
     \<and> map_of r' ''Duration'' = Some (CFloat (py_round2 q))
     \<and> map_of r' ''Path'' = Some (CStr (str_replace (audio_file_path i) ''./dataset'' ''$ROOT/''))
     \<and> (\<not> prefix ''/'' i \<and> \<not> str_in ''./dataset'' i \<longrightarrow>
          audio_file_path i =
            ''./dataset'' @ ''/ASVspoof2019_LA/'' @ fst (subset_of i) @ ''/flac/'' @ i @ ''.flac''
          \<and> map_of r' ''Path'' =
            Some (CStr (''$ROOT/'' @ ''/ASVspoof2019_LA/'' @ fst (subset_of i) @ ''/flac/''
                        @ i @ ''.flac'')))"
proof -
  let ?r = "enrich row i m q"
  note g = get_audio_meta_ok [where fs = fs and row = row, OF assms]
  have d: "map_of ?r ''Duration'' = Some (CFloat (py_round2 q))"
    by (simp add: map_of_enrich)
  have p: "map_of ?r ''Path'' = Some (CStr (str_replace (audio_file_path i) ''./dataset'' ''$ROOT/''))"
    by (simp add: map_of_enrich root_folder_def)
  have c: "audio_file_path i =
            ''./dataset'' @ ''/ASVspoof2019_LA/'' @ fst (subset_of i) @ ''/flac/'' @ i @ ''.flac''
          \<and> map_of ?r ''Path'' =
            Some (CStr (''$ROOT/'' @ ''/ASVspoof2019_LA/'' @ fst (subset_of i) @ ''/flac/''
                        @ i @ ''.flac''))"
    if "\<not> prefix ''/'' i \<and> \<not> str_in ''./dataset'' i"
    using that p audio_file_path_plain [of i] path_with_root_replaced [of i] by simp
  from g d p c show ?thesis by blast
qed

theorem duration_and_path_witness:
  "map_of example_row ''ID'' = Some (CStr ''LA_D_1047731'')
   \<and> map_of example_row ''Label'' = Some (CStr ''real'')
   \<and> example_fs (audio_file_path ''LA_D_1047731'') = Some (Audio example_audio)
   \<and> py_truediv (num_frames example_audio) (sample_rate example_audio) = Inr 2
   \<and> get_audio_meta example_fs example_row = ([], Inr example_enriched)
   \<and> map_of example_enriched ''Duration'' = Some (CFloat 2)
   \<and> map_of example_enriched ''Path'' =
       Some (CStr ''$ROOT//ASVspoof2019_LA/ASVspoof2019_LA_dev/flac/LA_D_1047731.flac'')"
proof -
  have a: "map_of example_row ''ID'' = Some (CStr ''LA_D_1047731'')"
    and b: "map_of example_row ''Label'' = Some (CStr ''real'')"
    by (simp_all add: example_row_def)
  have c: "example_fs (audio_file_path ''LA_D_1047731'') = Some (Audio example_audio)"
    by code_simp
  have d: "py_truediv (num_frames example_audio) (sample_rate example_audio) = Inr 2"
    by code_simp
  have n: "\<not> prefix ''/'' ''LA_D_1047731'' \<and> \<not> str_in ''./dataset'' ''LA_D_1047731''"
    by simp
  have r: "py_round2 2 = 2" by code_simp
  have s: "fst (subset_of ''LA_D_1047731'') = ''ASVspoof2019_LA_dev''" by code_simp
  from duration_and_path [where fs = example_fs and row = example_row, OF a b c d]
  obtain msgs r' where g: "get_audio_meta example_fs example_row = (msgs, Inr r')"
    and 1: "map_of r' ''Duration'' = Some (CFloat (py_round2 2))"
    and 2: "\<not> prefix ''/'' ''LA_D_1047731'' \<and> \<not> str_in ''./dataset'' ''LA_D_1047731'' \<longrightarrow>
          map_of r' ''Path'' =
            Some (CStr (''$ROOT/'' @ ''/ASVspoof2019_LA/'' @ fst (subset_of ''LA_D_1047731'')
                        @ ''/flac/'' @ ''LA_D_1047731'' @ ''.flac''))"
    by blast
  from g example_get_audio_meta have e: "r' = example_enriched" by simp
  from 1 have 3: "map_of example_enriched ''Duration'' = Some (CFloat 2)"
    by (simp only: e r)
  from 2 n have "map_of example_enriched ''Path'' =
            Some (CStr (''$ROOT/'' @ ''/ASVspoof2019_LA/'' @ fst (subset_of ''LA_D_1047731'')
                        @ ''/flac/'' @ ''LA_D_1047731'' @ ''.flac''))"
    unfolding e by blast
  then have 4: "map_of example_enriched ''Path'' =
       Some (CStr ''$ROOT//ASVspoof2019_LA/ASVspoof2019_LA_dev/flac/LA_D_1047731.flac'')"
    by (simp add: s)
  from a b c d example_get_audio_meta 3 4 show ?thesis by blast
qed

section \<open>What the enrichment changes\<close>

text \<open>
  C10. The enrichment of a row leaves its Speaker, Attack and Label columns as they are, and
  every other column that is not the ID or one of the eight new columns. The ID gets the prefix
  \<open>ASV19LA-\<close>; the columns of the result are those of the row and the eight new ones, which
  come after the old ones, in the order of the assignments, when the row has none of them.
\<close>

theorem enrichment_frame:
  assumes "get_audio_meta fs row = (msgs, Inr r')"
  shows "map_of r' ''Speaker'' = map_of row ''Speaker''
     \<and> map_of r' ''Attack'' = map_of row ''Attack''
     \<and> map_of r' ''Label'' = map_of row ''Label''
     \<and> (\<exists>i. map_of row ''ID'' = Some (CStr i) \<and> map_of r' ''ID'' = Some (CStr (''ASV19LA-'' @ i)))
     \<and> (\<forall>k. k \<notin> set (''ID'' # new_columns) \<longrightarrow> map_of r' k = map_of row k)
     \<and> fst ` set r' = fst ` set row \<union> set new_columns
     \<and> (fst ` set row \<inter> set new_columns = {} \<longrightarrow> map fst r' = map fst row @ new_columns)"
proof -
  from get_audio_meta_Inr [OF assms] obtain i m q where
    i: "map_of row ''ID'' = Some (CStr i)" and r': "r' = enrich row i m q" by blast
  from i have idk: "''ID'' \<in> fst ` set row"
    by (metis map_of_eq_None_iff option.distinct(1))
  have 1: "map_of r' ''Speaker'' = map_of row ''Speaker''"
    and 2: "map_of r' ''Attack'' = map_of row ''Attack''"
    and 3: "map_of r' ''Label'' = map_of row ''Label''"
    and 4: "map_of r' ''ID'' = Some (CStr (''ASV19LA-'' @ i))"
    by (simp_all add: r' map_of_enrich ID_PREFIX_def)
  have 5: "\<forall>k. k \<notin> set (''ID'' # new_columns) \<longrightarrow> map_of r' k = map_of row k"
    by (simp add: r' map_of_enrich new_columns_def)
  have 6: "fst ` set r' = fst ` set row \<union> set new_columns"
    unfolding r' by (rule keys_enrich_set [OF idk])
  have 7: "fst ` set row \<inter> set new_columns = {} \<longrightarrow> map fst r' = map fst row @ new_columns"
    unfolding r' using keys_enrich_order [OF idk] by blast
  from 1 2 3 4 5 6 7 i show ?thesis by blast
qed

theorem enrichment_frame_witness:
  "get_audio_meta example_fs example_row = ([], Inr example_enriched)
   \<and> map_of example_enriched ''Speaker'' = Some (CStr ''LA_0069'')
   \<and> map_of example_enriched ''Attack'' = Some (CStr ''-'')
   \<and> map_of example_enriched ''Label'' = Some (CStr ''real'')
   \<and> map_of example_enriched ''UN'' = map_of example_row ''UN''
   \<and> map fst example_enriched = map fst example_row @ new_columns"
proof -
  have d: "fst ` set example_row \<inter> set new_columns = {}"
    by (simp add: example_row_def new_columns_def)
  have u: "''UN'' \<notin> set (''ID'' # new_columns)" by (simp add: new_columns_def)
  from enrichment_frame [OF example_get_audio_meta] d u example_get_audio_meta
  show ?thesis by (simp add: example_row_def)
qed

section \<open>The example of the documentation\<close>

text \<open>
  C9. The line \<open>LA_0069 LA_D_1047731 - - bonafide\<close>, with an audio file whose header reports
  the sample rate 16000 and 32000 frames, gives the row with the ID \<open>ASV19LA-LA_D_1047731\<close>,
  the label \<open>real\<close>, the duration 2.0 and the proportion \<open>valid\<close>.
\<close>

theorem example_line:
  assumes "fs ''./dataset/ASVspoof2019_LA/ASVspoof2019_LA_dev/flac/LA_D_1047731.flac'' =
             Some (Audio m)"
    and "sample_rate m = 16000" and "num_frames m = 32000"
  shows "\<exists>r msgs r'. parse_line ''LA_0069 LA_D_1047731 - - bonafide'' = Inr r
     \<and> get_audio_meta fs r = (msgs, Inr r')
     \<and> map_of r' ''ID'' = Some (CStr ''ASV19LA-LA_D_1047731'')
     \<and> map_of r' ''Label'' = Some (CStr ''real'')
     \<and> map_of r' ''Duration'' = Some (CFloat 2)
     \<and> map_of r' ''Proportion'' = Some (CStr ''valid'')"
proof -
  have p: "audio_file_path ''LA_D_1047731'' =
      ''./dataset/ASVspoof2019_LA/ASVspoof2019_LA_dev/flac/LA_D_1047731.flac''"
    by code_simp
  have q: "py_truediv (num_frames m) (sample_rate m) = Inr 2"
    unfolding assms by code_simp
  have r2: "py_round2 2 = 2" by code_simp
  have s: "snd (subset_of ''LA_D_1047731'') = ''valid''" by code_simp
  have i: "map_of example_row ''ID'' = Some (CStr ''LA_D_1047731'')"
    and l: "map_of example_row ''Label'' = Some (CStr ''real'')"
    by (simp_all add: example_row_def)
  from assms(1) have f: "fs (audio_file_path ''LA_D_1047731'') = Some (Audio m)"
    by (simp only: p)
  note g = get_audio_meta_ok [where fs = fs and row = example_row, OF i l f q]
  have "map_of (enrich example_row ''LA_D_1047731'' m 2) ''ID'' = Some (CStr ''ASV19LA-LA_D_1047731'')"
    "map_of (enrich example_row ''LA_D_1047731'' m 2) ''Label'' = Some (CStr ''real'')"
    "map_of (enrich example_row ''LA_D_1047731'' m 2) ''Duration'' = Some (CFloat 2)"
    "map_of (enrich example_row ''LA_D_1047731'' m 2) ''Proportion'' = Some (CStr ''valid'')"
    by (simp_all add: map_of_enrich ID_PREFIX_def r2 s l)
  with example_parse g show ?thesis by blast
qed

theorem example_line_witness:
  "example_fs ''./dataset/ASVspoof2019_LA/ASVspoof2019_LA_dev/flac/LA_D_1047731.flac'' =
     Some (Audio example_audio)
   \<and> sample_rate example_audio = 16000 \<and> num_frames example_audio = 32000
   \<and> parse_line ''LA_0069 LA_D_1047731 - - bonafide'' = Inr example_row
   \<and> get_audio_meta example_fs example_row = ([], Inr example_enriched)
   \<and> map_of example_enriched ''Duration'' = Some (CFloat 2)"
proof -
  have a: "example_fs ''./dataset/ASVspoof2019_LA/ASVspoof2019_LA_dev/flac/LA_D_1047731.flac'' =
     Some (Audio example_audio)" by (simp add: example_fs_def)
  have b: "sample_rate example_audio = 16000" and c: "num_frames example_audio = 32000"
    by (simp_all add: example_audio_def)
  from example_line [where fs = example_fs and m = example_audio, OF a b c] obtain r msgs r' where
    "parse_line ''LA_0069 LA_D_1047731 - - bonafide'' = Inr r"
    "get_audio_meta example_fs r = (msgs, Inr r')"
    "map_of r' ''Duration'' = Some (CFloat 2)" by blast
  with example_parse example_get_audio_meta
  have "map_of example_enriched ''Duration'' = Some (CFloat 2)" by simp
  with a b c example_parse example_get_audio_meta show ?thesis by simp
qed

section \<open>A protocol file that is missing\<close>

text \<open>
  C7. A protocol file that does not exist, wherever it stands in the list of the protocol
  files, is skipped: the records and the outcome of the loop are those of the loop without it,
  and it has no lines and no rows to give. When the loop reaches it, the files before it having been
  processed, it prints the warning and goes on with the files after it.
\<close>

theorem missing_protocol_skipped:
  assumes "\<not> os_path_exists fs (protocol_path f)"
  shows "snd (process_protocols rd fs (before @ f # after) c) =
           snd (process_protocols rd fs (before @ after) c)
     \<and> protocol_lines fs f = []
     \<and> rows_read rd fs f = []
     \<and> (\<forall>c'. snd (process_protocols rd fs before c) = Inr c' \<longrightarrow>
           fst (process_protocols rd fs (before @ f # after) c) =
             fst (process_protocols rd fs before c)
             @ [Processing (protocol_path f), ProtocolNotFound (protocol_path f)]
             @ fst (process_protocols rd fs after c'))"
proof -
  from assms have n: "fs (protocol_path f) = None" by (simp add: os_path_exists_def)
  have s: "process_protocols rd fs (f # after) d =
     ([Processing (protocol_path f), ProtocolNotFound (protocol_path f)]
        @ fst (process_protocols rd fs after d),
      snd (process_protocols rd fs after d))" for d
    using n by (rule process_protocols_missing)
  have 1: "snd (process_protocols rd fs (before @ f # after) c) =
           snd (process_protocols rd fs (before @ after) c)"
    by (simp add: process_protocols_append s split: prod.splits sum.splits)
  have 2: "protocol_lines fs f = []" by (simp add: protocol_lines_def n)
  have 4: "rows_read rd fs f = []" by (simp add: rows_read_cases n)
  have 3: "\<forall>c'. snd (process_protocols rd fs before c) = Inr c' \<longrightarrow>
           fst (process_protocols rd fs (before @ f # after) c) =
             fst (process_protocols rd fs before c)
             @ [Processing (protocol_path f), ProtocolNotFound (protocol_path f)]
             @ fst (process_protocols rd fs after c')"
    by (simp add: process_protocols_append s split: prod.splits sum.splits)
  from 1 2 3 4 show ?thesis by blast
qed

theorem missing_protocol_skipped_witness:
  "\<not> os_path_exists example_fs (protocol_path ''ASVspoof2019.LA.cm.train.trn.txt'')
   \<and> snd (process_protocols parse_lines example_fs protocol_files []) =
       snd (process_protocols parse_lines example_fs
              [''ASVspoof2019.LA.cm.dev.trl.txt'', ''ASVspoof2019.LA.cm.eval.trl.txt''] [])
   \<and> snd (process_protocols parse_lines example_fs protocol_files []) =
       Inr [AList.delete ''UN'' example_enriched]
   \<and> take 2 (fst (process_protocols parse_lines example_fs protocol_files [])) =
       [Processing (protocol_path ''ASVspoof2019.LA.cm.train.trn.txt''),
        ProtocolNotFound (protocol_path ''ASVspoof2019.LA.cm.train.trn.txt'')]"
proof -
  have a: "\<not> os_path_exists example_fs (protocol_path ''ASVspoof2019.LA.cm.train.trn.txt'')"
    by code_simp
  have p: "protocol_files = [] @ ''ASVspoof2019.LA.cm.train.trn.txt''
      # [''ASVspoof2019.LA.cm.dev.trl.txt'', ''ASVspoof2019.LA.cm.eval.trl.txt'']"
    by (simp add: protocol_files_def)
  have e: "snd (process_protocols parse_lines example_fs protocol_files []) =
       Inr [AList.delete ''UN'' example_enriched]" by code_simp
  note t = missing_protocol_skipped [OF a, where rd = parse_lines and before = "[]"
      and after = "[''ASVspoof2019.LA.cm.dev.trl.txt'', ''ASVspoof2019.LA.cm.eval.trl.txt'']"
      and c = "[]"]
  from t have 1: "snd (process_protocols parse_lines example_fs protocol_files []) =
       snd (process_protocols parse_lines example_fs
              [''ASVspoof2019.LA.cm.dev.trl.txt'', ''ASVspoof2019.LA.cm.eval.trl.txt''] [])"
    unfolding p by simp
  from t have "fst (process_protocols parse_lines example_fs protocol_files []) =
      [Processing (protocol_path ''ASVspoof2019.LA.cm.train.trn.txt''),
       ProtocolNotFound (protocol_path ''ASVspoof2019.LA.cm.train.trn.txt'')]
      @ fst (process_protocols parse_lines example_fs
              [''ASVspoof2019.LA.cm.dev.trl.txt'', ''ASVspoof2019.LA.cm.eval.trl.txt''] [])"
    unfolding p by simp
  then have 2: "take 2 (fst (process_protocols parse_lines example_fs protocol_files [])) =
       [Processing (protocol_path ''ASVspoof2019.LA.cm.train.trn.txt''),
        ProtocolNotFound (protocol_path ''ASVspoof2019.LA.cm.train.trn.txt'')]"
    by simp
  from a 1 e 2 show ?thesis by blast
qed

section \<open>The order of the rows\<close>



section \<open>The number of rows\<close>




end
